theory Spec2Isabelle
  imports Complex_Main "HOL-Library.Multiset"
begin

section \<open>Floating-point numbers\<close>

text \<open>
  The add-on \<^verbatim>\<open>origin_to.py\<close> computes, for a mesh object, the point at the centre of
  the bottom (or top) face of its world-space bounding box, and has two operators that
  move the origin of every selected mesh object to that point. The \<^verbatim>\<open>print\<close> calls of
  the source write to the console only and are left out.

  Coordinates are floating-point numbers: a \<^verbatim>\<open>mathutils\<close> Vector or Matrix stores
  32-bit floats (binary32), and Python computes on 64-bit floats (binary64). A float is
  a rational, an infinity or NaN; the sign of a zero is not kept (Python's comparisons
  take the two zeros for equal, and no operation of the add-on tells them apart).
  Every operation computes the exact result and rounds it to the nearest float of its
  format, ties to the even significand, with gradual underflow and overflow to an
  infinity.
\<close>

datatype pyfloat = Fin rat | PInf | NInf | NaN

text \<open>The number of binary digits of a positive integer.\<close>

function bits :: "int \<Rightarrow> int" where
  "bits n = (if n \<le> 0 then 0 else 1 + bits (n div 2))"
  by pat_completeness auto
termination
  by (relation "measure nat") auto

declare bits.simps [simp del]

text \<open>
  \<open>ilog2 x\<close> is the exponent \<open>e\<close> with \<open>2^e \<le> x < 2^(e+1)\<close>, for a positive \<open>x\<close>: for
  \<open>x = n / d\<close> it is the difference of the digit counts of \<open>n\<close> and \<open>d\<close>, or one less.
\<close>

definition ilog2 :: "rat \<Rightarrow> int" where
  "ilog2 x =
     (let (n, d) = quotient_of x;
          k = bits n - bits d
      in if 2 powi k \<le> x then k else k - 1)"

definition round_half_even :: "rat \<Rightarrow> int" where
  "round_half_even t =
     (let f = \<lfloor>t\<rfloor>; r = t - of_int f
      in if r < 1/2 then f else if 1/2 < r then f + 1 else if even f then f else f + 1)"

text \<open>
  Rounding a positive \<open>x\<close> to \<open>p\<close> significant binary digits, with \<open>emin\<close> the exponent
  of the smallest normal number: the spacing of the floats around \<open>x\<close> is
  \<open>q = 2^(e - p + 1)\<close>, where \<open>e\<close> is the exponent of \<open>x\<close> and at least \<open>emin\<close>.
\<close>

definition round_pos :: "nat \<Rightarrow> int \<Rightarrow> rat \<Rightarrow> rat" where
  "round_pos p emin x =
     (let e = max (ilog2 x) emin; q = 2 powi (e - int p + 1)
      in of_int (round_half_even (x / q)) * q)"

definition round_fp :: "nat \<Rightarrow> int \<Rightarrow> int \<Rightarrow> rat \<Rightarrow> pyfloat" where
  "round_fp p emin emax x =
     (let y = (if x = 0 then 0 else if x < 0 then - round_pos p emin (- x) else round_pos p emin x)
      in if 2 powi (emax + 1) \<le> y then PInf
         else if y \<le> - (2 powi (emax + 1)) then NInf
         else Fin y)"

text \<open>Rounding to binary32 and to binary64.\<close>

definition single :: "rat \<Rightarrow> pyfloat" where
  "single = round_fp 24 (- 126) 127"

definition double :: "rat \<Rightarrow> pyfloat" where
  "double = round_fp 53 (- 1022) 1023"

text \<open>
  Python's \<^verbatim>\<open>a < b\<close> on floats (\<^verbatim>\<open>a > b\<close> is \<open>flt b a\<close>): false whenever an operand is
  NaN.
\<close>

fun flt :: "pyfloat \<Rightarrow> pyfloat \<Rightarrow> bool" where
  "flt NaN b = False"
| "flt a NaN = False"
| "flt (Fin x) (Fin y) = (x < y)"
| "flt (Fin x) PInf = True"
| "flt (Fin x) NInf = False"
| "flt PInf b = False"
| "flt NInf (Fin y) = True"
| "flt NInf PInf = True"
| "flt NInf NInf = False"

text \<open>Python's \<^verbatim>\<open>a + b\<close> and \<^verbatim>\<open>a / 2\<close> on floats, in binary64.\<close>

fun fadd :: "pyfloat \<Rightarrow> pyfloat \<Rightarrow> pyfloat" where
  "fadd NaN b = NaN"
| "fadd a NaN = NaN"
| "fadd (Fin x) (Fin y) = double (x + y)"
| "fadd PInf NInf = NaN"
| "fadd NInf PInf = NaN"
| "fadd PInf b = PInf"
| "fadd NInf b = NInf"
| "fadd (Fin x) b = b"

fun fdiv2 :: "pyfloat \<Rightarrow> pyfloat" where
  "fdiv2 (Fin x) = double (x / 2)"
| "fdiv2 a = a"

text \<open>
  The product of two binary32 numbers in C (\<^verbatim>\<open>float * float\<close>), and the conversion of a
  binary64 number to binary32: the C cast \<^verbatim>\<open>(float)\<close>, which is also what storing a
  Python float in a Vector does.
\<close>

fun fmul32 :: "pyfloat \<Rightarrow> pyfloat \<Rightarrow> pyfloat" where
  "fmul32 NaN b = NaN"
| "fmul32 a NaN = NaN"
| "fmul32 (Fin x) (Fin y) = single (x * y)"
| "fmul32 (Fin x) PInf = (if x = 0 then NaN else if 0 < x then PInf else NInf)"
| "fmul32 (Fin x) NInf = (if x = 0 then NaN else if 0 < x then NInf else PInf)"
| "fmul32 PInf (Fin y) = (if y = 0 then NaN else if 0 < y then PInf else NInf)"
| "fmul32 NInf (Fin y) = (if y = 0 then NaN else if 0 < y then NInf else PInf)"
| "fmul32 PInf PInf = PInf"
| "fmul32 PInf NInf = NInf"
| "fmul32 NInf PInf = NInf"
| "fmul32 NInf NInf = PInf"

fun to_single :: "pyfloat \<Rightarrow> pyfloat" where
  "to_single (Fin x) = single x"
| "to_single a = a"

section \<open>Vectors, matrices and objects\<close>

text \<open>
  A \<^verbatim>\<open>mathutils.Vector\<close> of three components, each a binary32 number; reading a
  component (\<^verbatim>\<open>v.x\<close>) gives the same number as a Python float. \<open>new_Vector\<close> is the
  constructor \<^verbatim>\<open>Vector((x, y, z))\<close> on Python floats, which stores each in binary32.
\<close>

datatype Vector = Vector (vx: pyfloat) (vy: pyfloat) (vz: pyfloat)

definition new_Vector :: "pyfloat \<Rightarrow> pyfloat \<Rightarrow> pyfloat \<Rightarrow> Vector" where
  "new_Vector x y z = Vector (to_single x) (to_single y) (to_single z)"

type_synonym row = "pyfloat \<times> pyfloat \<times> pyfloat \<times> pyfloat"

datatype Matrix = Matrix row row row row

text \<open>
  \<^verbatim>\<open>obj.matrix_world @ v.co\<close>: a 4x4 matrix applied to a 3D vector. mathutils extends
  the vector by a fourth component 1 and returns the first three rows of the product.
  Each row is a sum that starts at 0 and adds, column by column, the binary32 product
  of the matrix entry and the vector component, in binary64; the sum is then stored in
  binary32.
\<close>

fun dot4 :: "row \<Rightarrow> Vector \<Rightarrow> pyfloat" where
  "dot4 (a, b, c, d) (Vector x y z) =
     to_single (fadd (fadd (fadd (fadd (Fin 0) (fmul32 a x)) (fmul32 b y)) (fmul32 c z))
                     (fmul32 d (Fin 1)))"

fun matmul :: "Matrix \<Rightarrow> Vector \<Rightarrow> Vector" where
  "matmul (Matrix r0 r1 r2 r3) v = Vector (dot4 r0 v) (dot4 r1 v) (dot4 r2 v)"

text \<open>
  An object of the scene, as far as the add-on reads it: \<open>obj_type\<close> is \<^verbatim>\<open>obj.type\<close>,
  \<open>vertices\<close> are the coordinates \<^verbatim>\<open>v.co\<close> of the vertices of the evaluated mesh
  \<^verbatim>\<open>obj.evaluated_get(depsgraph).data\<close>, in the object's local space.
  Modelled from the spec: \<open>origin\<close>, the pivot of the object in world space, which the
  host's relocation primitive writes (the host is not part of the repository).
\<close>

record object =
  obj_type :: string
  matrix_world :: Matrix
  vertices :: "Vector list"
  origin :: Vector

datatype error = ValueError

section \<open>Python's \<^verbatim>\<open>min\<close> and \<^verbatim>\<open>max\<close>\<close>

text \<open>
  \<^verbatim>\<open>min(it)\<close> raises ValueError on an empty iterable; otherwise it keeps the first item
  and replaces it by a later item only when that item is strictly smaller (for
  \<^verbatim>\<open>max\<close>: strictly greater).
\<close>

fun min_from :: "pyfloat \<Rightarrow> pyfloat list \<Rightarrow> pyfloat" where
  "min_from m [] = m"
| "min_from m (x # xs) = min_from (if flt x m then x else m) xs"

fun max_from :: "pyfloat \<Rightarrow> pyfloat list \<Rightarrow> pyfloat" where
  "max_from m [] = m"
| "max_from m (x # xs) = max_from (if flt m x then x else m) xs"

fun py_min :: "pyfloat list \<Rightarrow> error + pyfloat" where
  "py_min [] = Inl ValueError"
| "py_min (x # xs) = Inr (min_from x xs)"

fun py_max :: "pyfloat list \<Rightarrow> error + pyfloat" where
  "py_max [] = Inl ValueError"
| "py_max (x # xs) = Inr (max_from x xs)"

text \<open>Sequencing of computations that may raise: the first error ends the computation.\<close>

fun and_then :: "error + 'a \<Rightarrow> ('a \<Rightarrow> error + 'b) \<Rightarrow> error + 'b" where
  "and_then (Inl e) f = Inl e"
| "and_then (Inr x) f = f x"

section \<open>The bounding-box origin calculator\<close>

definition world_verts :: "object \<Rightarrow> Vector list" where
  "world_verts obj = map (\<lambda>v. matmul (matrix_world obj) v) (vertices obj)"

text \<open>
  \<^verbatim>\<open>SetOriginBase.calculate_origin_point(self, obj, use_bottom)\<close>. The result
  \<open>Inr None\<close> is the source's \<^verbatim>\<open>return None\<close>.
\<close>

definition calculate_origin_point :: "object \<Rightarrow> bool \<Rightarrow> error + Vector option" where
  "calculate_origin_point obj use_bottom =
     (let world_verts = world_verts obj in
      if world_verts = [] then Inr None
      else
        and_then (py_min (map vx world_verts)) (\<lambda>min_x.
        and_then (py_max (map vx world_verts)) (\<lambda>max_x.
        and_then (py_min (map vy world_verts)) (\<lambda>min_y.
        and_then (py_max (map vy world_verts)) (\<lambda>max_y.
        and_then (py_min (map vz world_verts)) (\<lambda>min_z.
        and_then (py_max (map vz world_verts)) (\<lambda>max_z.
          let center_x = fdiv2 (fadd min_x max_x);
              center_y = fdiv2 (fadd min_y max_y);
              target_z = (if use_bottom then min_z else max_z)
          in Inr (Some (new_Vector center_x center_y target_z)))))))))"

section \<open>The ambient state and the host\<close>

text \<open>
  What the operators see of Blender through \<^verbatim>\<open>context\<close>:
  \<open>cursor_location\<close> is \<^verbatim>\<open>context.scene.cursor.location\<close>, \<open>active_object\<close> is
  \<^verbatim>\<open>context.active_object\<close>, which \<^verbatim>\<open>context.view_layer.objects.active\<close> assigns,
  \<open>selected_objects\<close> is \<^verbatim>\<open>context.selected_objects\<close>. An object reference is the
  object's name, which is unique in a Blender file, and \<open>objects\<close> is the scene's data
  behind the references, so that a reference held in two places (the selection, the
  active object) names one object.

  \<open>calls\<close> is a ghost field: the calls made so far to the calculator and to the host's
  relocation primitive, in order, so that a theorem can tell a call from none. A call of
  the primitive is recorded with the active object and the cursor location it was made
  with.
\<close>

datatype call = Calculate string bool | Origin_Set "string option" Vector

record bpy_context =
  cursor_location :: Vector
  active_object :: "string option"
  selected_objects :: "string list"
  objects :: "string \<Rightarrow> object"
  calls :: "call list"

text \<open>
  \<^verbatim>\<open>bpy.ops.object.origin_set(type='ORIGIN_CURSOR')\<close> is Blender's and not the
  repository's, so the operators take it as a parameter \<open>origin_set\<close>: any function
  that gives, from the ambient state it is called in, the objects of the scene after the
  call. Which objects it relocates (the active one, the selected ones) and what it
  rewrites of them (origin, transform, mesh coordinates) is left to it; it moves neither
  the cursor nor the active object and changes no object's type.
\<close>

type_synonym host = "bpy_context \<Rightarrow> string \<Rightarrow> object"

definition call_origin_set :: "host \<Rightarrow> bpy_context \<Rightarrow> bpy_context" where
  "call_origin_set origin_set c =
     c\<lparr>objects := (\<lambda>n. (origin_set c n)\<lparr>obj_type := obj_type (objects c n)\<rparr>),
       calls := calls c @ [Origin_Set (active_object c) (cursor_location c)]\<rparr>"

text \<open>
  The truth value of a \<^verbatim>\<open>mathutils.Vector\<close>: the type has no \<^verbatim>\<open>__bool__\<close> (its
  number protocol leaves the slot empty), so Python falls back on \<^verbatim>\<open>len\<close>, and the
  vector built by \<^verbatim>\<open>Vector((center_x, center_y, target_z))\<close> has length 3 whatever its
  components are. \<open>py_not\<close> is \<^verbatim>\<open>not origin_point\<close> for a value that is \<^verbatim>\<open>None\<close> or a
  Vector.
\<close>

definition Vector_len :: "Vector \<Rightarrow> nat" where
  "Vector_len v = 3"

definition Vector_bool :: "Vector \<Rightarrow> bool" where
  "Vector_bool v = (Vector_len v \<noteq> 0)"

fun py_not :: "Vector option \<Rightarrow> bool" where
  "py_not None = True"
| "py_not (Some v) = (\<not> Vector_bool v)"

section \<open>The two operators\<close>

text \<open>
  \<^verbatim>\<open>SetOriginBottomOperator.execute\<close>. \<open>bottom_body\<close> is one pass through the body of
  the \<^verbatim>\<open>for\<close> loop, for the object \<open>obj\<close> named \<open>n\<close>; each \<^verbatim>\<open>continue\<close> returns
  the state as it is. \<open>bottom_loop\<close> runs the body over the selection in order.
\<close>

definition bottom_body :: "host \<Rightarrow> string \<Rightarrow> bpy_context \<Rightarrow> error + bpy_context" where
  "bottom_body origin_set n c =
     (let obj = objects c n in
      if obj_type obj \<noteq> ''MESH'' then Inr c
      else
        and_then (calculate_origin_point obj True) (\<lambda>origin_point.
          let c = c\<lparr>calls := calls c @ [Calculate n True]\<rparr> in
          if py_not origin_point then Inr c
          else
            (case origin_point of
               None \<Rightarrow> Inr c
             | Some p \<Rightarrow>
                 Inr (call_origin_set origin_set
                        (c\<lparr>cursor_location := p, active_object := Some n\<rparr>)))))"

fun bottom_loop :: "host \<Rightarrow> string list \<Rightarrow> bpy_context \<Rightarrow> error + bpy_context" where
  "bottom_loop origin_set [] c = Inr c"
| "bottom_loop origin_set (n # ns) c =
     and_then (bottom_body origin_set n c) (bottom_loop origin_set ns)"

definition SetOriginBottomOperator_execute ::
  "host \<Rightarrow> bpy_context \<Rightarrow> error + (bpy_context \<times> string set)" where
  "SetOriginBottomOperator_execute origin_set c =
     (let original_cursor = cursor_location c;
          original_active = active_object c
      in and_then (bottom_loop origin_set (selected_objects c) c) (\<lambda>c.
           Inr (c\<lparr>cursor_location := original_cursor, active_object := original_active\<rparr>,
                {''FINISHED''})))"

text \<open>\<^verbatim>\<open>SetOriginTopOperator.execute\<close>, in the same way.\<close>

definition top_body :: "host \<Rightarrow> string \<Rightarrow> bpy_context \<Rightarrow> error + bpy_context" where
  "top_body origin_set n c =
     (let obj = objects c n in
      if obj_type obj \<noteq> ''MESH'' then Inr c
      else
        and_then (calculate_origin_point obj False) (\<lambda>origin_point.
          let c = c\<lparr>calls := calls c @ [Calculate n False]\<rparr> in
          if py_not origin_point then Inr c
          else
            (case origin_point of
               None \<Rightarrow> Inr c
             | Some p \<Rightarrow>
                 Inr (call_origin_set origin_set
                        (c\<lparr>cursor_location := p, active_object := Some n\<rparr>)))))"

fun top_loop :: "host \<Rightarrow> string list \<Rightarrow> bpy_context \<Rightarrow> error + bpy_context" where
  "top_loop origin_set [] c = Inr c"
| "top_loop origin_set (n # ns) c =
     and_then (top_body origin_set n c) (top_loop origin_set ns)"

definition SetOriginTopOperator_execute ::
  "host \<Rightarrow> bpy_context \<Rightarrow> error + (bpy_context \<times> string set)" where
  "SetOriginTopOperator_execute origin_set c =
     (let original_cursor = cursor_location c;
          original_active = active_object c
      in and_then (top_loop origin_set (selected_objects c) c) (\<lambda>c.
           Inr (c\<lparr>cursor_location := original_cursor, active_object := original_active\<rparr>,
                {''FINISHED''})))"

text \<open>
  The text of \<^verbatim>\<open>SetOriginBottomOperator.execute\<close> with the constant \<^verbatim>\<open>use_bottom=True\<close>
  of its calculator call replaced by a parameter, every other step kept.
\<close>

definition body_with :: "bool \<Rightarrow> host \<Rightarrow> string \<Rightarrow> bpy_context \<Rightarrow> error + bpy_context" where
  "body_with use_bottom origin_set n c =
     (let obj = objects c n in
      if obj_type obj \<noteq> ''MESH'' then Inr c
      else
        and_then (calculate_origin_point obj use_bottom) (\<lambda>origin_point.
          let c = c\<lparr>calls := calls c @ [Calculate n use_bottom]\<rparr> in
          if py_not origin_point then Inr c
          else
            (case origin_point of
               None \<Rightarrow> Inr c
             | Some p \<Rightarrow>
                 Inr (call_origin_set origin_set
                        (c\<lparr>cursor_location := p, active_object := Some n\<rparr>)))))"

fun loop_with :: "bool \<Rightarrow> host \<Rightarrow> string list \<Rightarrow> bpy_context \<Rightarrow> error + bpy_context" where
  "loop_with use_bottom origin_set [] c = Inr c"
| "loop_with use_bottom origin_set (n # ns) c =
     and_then (body_with use_bottom origin_set n c) (loop_with use_bottom origin_set ns)"

definition execute_with ::
  "bool \<Rightarrow> host \<Rightarrow> bpy_context \<Rightarrow> error + (bpy_context \<times> string set)" where
  "execute_with use_bottom origin_set c =
     (let original_cursor = cursor_location c;
          original_active = active_object c
      in and_then (loop_with use_bottom origin_set (selected_objects c) c) (\<lambda>c.
           Inr (c\<lparr>cursor_location := original_cursor, active_object := original_active\<rparr>,
                {''FINISHED''})))"

section \<open>Closed forms\<close>

text \<open>
  What \<^verbatim>\<open>min\<close> and \<^verbatim>\<open>max\<close> return on a non-empty list, the point the calculator
  returns for a non-empty list of world-space vertices, what one pass through the loop
  body does to the state, and the calls a run of the loop adds to the log. These are
  written for the proofs; the lemmas below tie them to the code.
\<close>

fun lo :: "pyfloat list \<Rightarrow> pyfloat" where
  "lo [] = NaN"
| "lo (x # xs) = min_from x xs"

fun hi :: "pyfloat list \<Rightarrow> pyfloat" where
  "hi [] = NaN"
| "hi (x # xs) = max_from x xs"

definition bbox_point :: "Vector list \<Rightarrow> bool \<Rightarrow> Vector" where
  "bbox_point W use_bottom =
     new_Vector (fdiv2 (fadd (lo (map vx W)) (hi (map vx W))))
                (fdiv2 (fadd (lo (map vy W)) (hi (map vy W))))
                (if use_bottom then lo (map vz W) else hi (map vz W))"

definition target :: "bool \<Rightarrow> object \<Rightarrow> Vector" where
  "target use_bottom obj = bbox_point (world_verts obj) use_bottom"

definition eligible :: "object \<Rightarrow> bool" where
  "eligible obj = (obj_type obj = ''MESH'' \<and> vertices obj \<noteq> [])"

definition step :: "bool \<Rightarrow> host \<Rightarrow> string \<Rightarrow> bpy_context \<Rightarrow> bpy_context" where
  "step use_bottom origin_set n c =
     (let obj = objects c n in
      if obj_type obj \<noteq> ''MESH'' then c
      else if vertices obj = [] then c\<lparr>calls := calls c @ [Calculate n use_bottom]\<rparr>
      else call_origin_set origin_set
             (c\<lparr>calls := calls c @ [Calculate n use_bottom],
                cursor_location := target use_bottom obj,
                active_object := Some n\<rparr>))"

definition emitted :: "bool \<Rightarrow> bpy_context \<Rightarrow> string \<Rightarrow> call list" where
  "emitted use_bottom c n =
     (let obj = objects c n in
      if obj_type obj \<noteq> ''MESH'' then []
      else if vertices obj = [] then [Calculate n use_bottom]
      else [Calculate n use_bottom, Origin_Set (Some n) (target use_bottom obj)])"

fun trace :: "bool \<Rightarrow> host \<Rightarrow> string list \<Rightarrow> bpy_context \<Rightarrow> call list" where
  "trace use_bottom origin_set [] c = []"
| "trace use_bottom origin_set (n # ns) c =
     emitted use_bottom c n @ trace use_bottom origin_set ns (step use_bottom origin_set n c)"

definition final :: "bool \<Rightarrow> host \<Rightarrow> bpy_context \<Rightarrow> bpy_context" where
  "final use_bottom origin_set c =
     (fold (step use_bottom origin_set) (selected_objects c) c)
       \<lparr>cursor_location := cursor_location c, active_object := active_object c\<rparr>"

definition new_calls :: "bpy_context \<Rightarrow> bpy_context \<Rightarrow> call list" where
  "new_calls c c' = drop (length (calls c)) (calls c')"

section \<open>The vocabulary of the claims\<close>

text \<open>
  \<open>operator_body use_bottom\<close> and \<open>operator_execute use_bottom\<close> name the loop body and
  the \<^verbatim>\<open>execute\<close> method of the operator of that mode: the bottom operator for
  \<open>True\<close>, the top operator for \<open>False\<close>.
\<close>

definition operator_body :: "bool \<Rightarrow> host \<Rightarrow> string \<Rightarrow> bpy_context \<Rightarrow> error + bpy_context" where
  "operator_body use_bottom origin_set n c =
     (if use_bottom then bottom_body origin_set n c else top_body origin_set n c)"

definition operator_execute ::
  "bool \<Rightarrow> host \<Rightarrow> bpy_context \<Rightarrow> error + (bpy_context \<times> string set)" where
  "operator_execute use_bottom origin_set c =
     (if use_bottom then SetOriginBottomOperator_execute origin_set c
      else SetOriginTopOperator_execute origin_set c)"


fun is_origin_set :: "call \<Rightarrow> bool" where
  "is_origin_set (Calculate n use_bottom) = False"
| "is_origin_set (Origin_Set a p) = True"

text \<open>
  Between the states \<open>c\<close> and \<open>c'\<close> an object was skipped when the cursor, the active
  object and the scene's objects are as they were and no relocation call was made.
\<close>

definition skipped :: "bpy_context \<Rightarrow> bpy_context \<Rightarrow> bool" where
  "skipped c c' =
     (cursor_location c' = cursor_location c \<and> active_object c' = active_object c \<and>
      objects c' = objects c \<and> filter is_origin_set (new_calls c c') = [])"

text \<open>
  A least and a greatest element of a set of floats under Python's comparison, and a
  list of vertices none of whose coordinates is NaN.
\<close>

definition is_least :: "pyfloat set \<Rightarrow> pyfloat \<Rightarrow> bool" where
  "is_least S m = (m \<in> S \<and> (\<forall>x\<in>S. \<not> flt x m))"

definition is_greatest :: "pyfloat set \<Rightarrow> pyfloat \<Rightarrow> bool" where
  "is_greatest S m = (m \<in> S \<and> (\<forall>x\<in>S. \<not> flt m x))"

definition nan_free :: "Vector list \<Rightarrow> bool" where
  "nan_free W = (\<forall>v\<in>set W. vx v \<noteq> NaN \<and> vy v \<noteq> NaN \<and> vz v \<noteq> NaN)"

text \<open>
  Two properties a host may have: it gives no mesh its first vertex and takes from no
  mesh its last one; it leaves the objects that are not meshes as they are.
\<close>

definition keeps_emptiness :: "host \<Rightarrow> bool" where
  "keeps_emptiness origin_set =
     (\<forall>c n. (vertices (origin_set c n) = []) = (vertices (objects c n) = []))"


section \<open>Example scenes\<close>

definition vec :: "rat \<Rightarrow> rat \<Rightarrow> rat \<Rightarrow> Vector" where
  "vec x y z = Vector (Fin x) (Fin y) (Fin z)"

definition translation :: "rat \<Rightarrow> rat \<Rightarrow> rat \<Rightarrow> Matrix" where
  "translation x y z =
     Matrix (Fin 1, Fin 0, Fin 0, Fin x) (Fin 0, Fin 1, Fin 0, Fin y)
            (Fin 0, Fin 0, Fin 1, Fin z) (Fin 0, Fin 0, Fin 0, Fin 1)"

definition identity_matrix :: Matrix where
  "identity_matrix = translation 0 0 0"

text \<open>The corners of the cube of side 1 centred at the origin, and of the cube \<open>[0,1]^3\<close>.\<close>

definition unit_cube :: "Vector list" where
  "unit_cube =
     [vec (- 1/2) (- 1/2) (- 1/2), vec (- 1/2) (- 1/2) (1/2),
      vec (- 1/2) (1/2) (- 1/2), vec (- 1/2) (1/2) (1/2),
      vec (1/2) (- 1/2) (- 1/2), vec (1/2) (- 1/2) (1/2),
      vec (1/2) (1/2) (- 1/2), vec (1/2) (1/2) (1/2)]"

definition corner_cube :: "Vector list" where
  "corner_cube =
     [vec 0 0 0, vec 0 0 1, vec 0 1 0, vec 0 1 1,
      vec 1 0 0, vec 1 0 1, vec 1 1 0, vec 1 1 1]"

definition cube :: object where
  "cube = \<lparr>obj_type = ''MESH'', matrix_world = identity_matrix, vertices = unit_cube,
           origin = vec 0 0 0\<rparr>"

definition moved_cube :: object where
  "moved_cube = \<lparr>obj_type = ''MESH'', matrix_world = translation 2 3 0, vertices = corner_cube,
                 origin = vec 2 3 0\<rparr>"

definition ground_cube :: object where
  "ground_cube = \<lparr>obj_type = ''MESH'', matrix_world = translation 0 0 (1/2), vertices = unit_cube,
                  origin = vec 0 0 (1/2)\<rparr>"

definition empty_mesh :: object where
  "empty_mesh = \<lparr>obj_type = ''MESH'', matrix_world = translation 1 1 1, vertices = [],
                 origin = vec 1 1 1\<rparr>"

definition camera :: object where
  "camera = \<lparr>obj_type = ''CAMERA'', matrix_world = translation 0 (- 5) 2, vertices = [],
             origin = vec 0 (- 5) 2\<rparr>"


definition nan_first :: object where
  "nan_first = \<lparr>obj_type = ''MESH'', matrix_world = identity_matrix,
                vertices = [Vector NaN (Fin 0) (Fin 0), vec 1 0 0, vec 2 0 0],
                origin = vec 0 0 0\<rparr>"

definition nan_second :: object where
  "nan_second = \<lparr>obj_type = ''MESH'', matrix_world = identity_matrix,
                 vertices = [vec 1 0 0, Vector NaN (Fin 0) (Fin 0), vec 2 0 0],
                 origin = vec 0 0 0\<rparr>"

text \<open>
  An instance of the relocation primitive for the examples. Blender's operator works on
  the selection and not on the active object alone: this instance moves the origin of
  every selected mesh object to the cursor and leaves every other object as it is.
\<close>

definition relocate_selected :: host where
  "relocate_selected c n =
     (if n \<in> set (selected_objects c) \<and> obj_type (objects c n) = ''MESH''
      then (objects c n)\<lparr>origin := cursor_location c\<rparr>
      else objects c n)"

text \<open>
  A scene with a mesh, a mesh without vertices and a camera, all three selected, the
  camera active; and a scene whose one selected mesh stands on the plane \<open>z = 0\<close>.
\<close>

definition scene :: bpy_context where
  "scene = \<lparr>cursor_location = vec 7 8 9, active_object = Some ''Camera'',
            selected_objects = [''Cube'', ''Empty'', ''Camera''],
            objects = (\<lambda>n. camera)(''Cube'' := moved_cube, ''Empty'' := empty_mesh),
            calls = []\<rparr>"

definition ground_scene :: bpy_context where
  "ground_scene = \<lparr>cursor_location = vec 7 8 9, active_object = None,
                   selected_objects = [''Cube''],
                   objects = (\<lambda>n. camera)(''Cube'' := ground_cube),
                   calls = []\<rparr>"

section \<open>Rounding\<close>

lemma bits_pos: "0 < n \<Longrightarrow> bits n = 1 + bits (n div 2)"
  by (subst bits.simps) simp

lemma bits_nonpos: "n \<le> 0 \<Longrightarrow> bits n = 0"
  by (subst bits.simps) simp

lemma bits_bounds: "0 < n \<Longrightarrow> 2 ^ nat (bits n - 1) \<le> n \<and> n < 2 ^ nat (bits n) \<and> 0 < bits n"
proof (induction n rule: bits.induct)
  case (1 n)
  show ?case
  proof (cases "n div 2 \<le> 0")
    case True
    with 1(2) have "n = 1" by linarith
    then show ?thesis by (simp add: bits_pos bits_nonpos)
  next
    case False
    then have pos: "0 < n div 2" by simp
    have npos: "\<not> n \<le> 0" using 1(2) by simp
    note ih = 1(1)[OF npos pos]
    have b: "bits n = 1 + bits (n div 2)"
      using 1(2) by (rule bits_pos)
    have e1: "nat (bits n - 1) = Suc (nat (bits (n div 2) - 1))"
      using ih b by (simp add: Suc_nat_eq_nat_zadd1)
    have e2: "nat (bits n) = Suc (nat (bits (n div 2)))"
      using ih b by (simp add: Suc_nat_eq_nat_zadd1)
    have "2 * 2 ^ nat (bits (n div 2) - 1) \<le> n"
      using ih by linarith
    moreover have "n < 2 * 2 ^ nat (bits (n div 2))"
      using ih by linarith
    ultimately show ?thesis
      unfolding e1 e2 using b ih by simp
  qed
qed


lemma bits_bounds_rat:
  assumes "0 < n"
  shows "(2::rat) powi (bits n - 1) \<le> of_int n" and "(of_int n :: rat) < 2 powi (bits n)"
proof -
  from bits_bounds [OF assms]
  have lo: "2 ^ nat (bits n - 1) \<le> n" and hi: "n < 2 ^ nat (bits n)" and pos: "0 < bits n"
    by simp_all
  have "(of_int (2 ^ nat (bits n - 1)) :: rat) \<le> of_int n"
    using lo by (simp only: of_int_le_iff)
  then show "(2::rat) powi (bits n - 1) \<le> of_int n"
    using pos by (simp add: power_int_nonneg_exp)
  have "(of_int n :: rat) < of_int (2 ^ nat (bits n))"
    using hi by (simp only: of_int_less_iff)
  then show "(of_int n :: rat) < 2 powi (bits n)"
    using pos by (simp add: power_int_nonneg_exp)
qed

lemma powi2_pos: "0 < (2::rat) powi k"
  by (simp add: zero_less_power_int)

lemma powi2_add: "(2::rat) powi (a + b) = 2 powi a * 2 powi b"
  by (simp add: power_int_add)

lemma powi2_diff: "(2::rat) powi (a - b) = 2 powi a / 2 powi b"
  by (simp add: power_int_diff)

lemma powi2_less_iff [simp]: "(2::rat) powi a < 2 powi b \<longleftrightarrow> a < b"
  by (metis linorder_neqE_linordered_idom not_less_iff_gr_or_eq one_less_numeral_iff
      power_int_strict_increasing semiring_norm(76))

lemma powi2_le_iff [simp]: "(2::rat) powi a \<le> 2 powi b \<longleftrightarrow> a \<le> b"
  by (metis linorder_not_less powi2_less_iff)

lemma ilog2_bounds:
  assumes "0 < x"
  shows "2 powi (ilog2 x) \<le> x \<and> x < 2 powi (ilog2 x + 1)"
proof -
  obtain n d where q: "quotient_of x = (n, d)"
    by (cases "quotient_of x")
  then have x: "x = of_int n / of_int d" and d: "0 < d"
    by (simp_all add: quotient_of_div quotient_of_denom_pos)
  with assms have n: "0 < n"
    by (simp add: zero_less_divide_iff)
  let ?k = "bits n - bits d"
  note bn = bits_bounds_rat [OF n] and bd = bits_bounds_rat [OF d]
  have dpos: "(0::rat) < of_int d" using d by simp
  have upper: "x < 2 powi (?k + 1)"
  proof -
    have "of_int n * 2 powi (bits d - 1) < (2::rat) powi (bits n) * of_int d"
      using bn(2) bd(1) n by (intro mult_less_le_imp_less) simp_all
    then have "of_int n / of_int d < (2::rat) powi (bits n) / 2 powi (bits d - 1)"
      using dpos by (simp add: field_simps)
    also have "\<dots> = 2 powi (?k + 1)"
      unfolding powi2_diff [symmetric] by (rule arg_cong [where f = "\<lambda>k. 2 powi k"]) simp
    finally show ?thesis by (simp add: x)
  qed
  have lower: "2 powi (?k - 1) < x"
  proof -
    have "(2::rat) powi (bits n - 1) * of_int d < of_int n * 2 powi (bits d)"
      using bn(1) bd(2) d by (intro mult_le_less_imp_less) simp_all
    then have "(2::rat) powi (bits n - 1) / 2 powi (bits d) < of_int n / of_int d"
      using dpos by (simp add: field_simps)
    moreover have "(2::rat) powi (bits n - 1) / 2 powi (bits d) = 2 powi (?k - 1)"
      unfolding powi2_diff [symmetric] by (rule arg_cong [where f = "\<lambda>k. 2 powi k"]) simp
    ultimately show ?thesis by (simp add: x)
  qed
  show ?thesis
  proof (cases "2 powi ?k \<le> x")
    case True
    then have "ilog2 x = ?k" by (simp add: ilog2_def q)
    with True upper show ?thesis by simp
  next
    case False
    then have "ilog2 x = ?k - 1" by (simp add: ilog2_def q)
    with False lower show ?thesis by simp
  qed
qed

lemma ilog2_unique:
  assumes "2 powi k \<le> x" and "x < 2 powi (k + 1)"
  shows "ilog2 x = k"
proof -
  have "0 < x" using assms(1) powi2_pos [of k] by linarith
  from ilog2_bounds [OF this] have b: "2 powi (ilog2 x) \<le> x" "x < 2 powi (ilog2 x + 1)"
    by simp_all
  have "2 powi k < (2::rat) powi (ilog2 x + 1)" using assms(1) b(2) by linarith
  then have "k < ilog2 x + 1" by simp
  moreover have "2 powi (ilog2 x) < (2::rat) powi (k + 1)" using assms(2) b(1) by linarith
  then have "ilog2 x < k + 1" by simp
  ultimately show ?thesis by linarith
qed


lemma round_half_even_of_int [simp]: "round_half_even (of_int n) = n"
  by (simp add: round_half_even_def)

lemma round_half_even_ge: "of_int a \<le> t \<Longrightarrow> a \<le> round_half_even t"
proof -
  assume "of_int a \<le> t"
  then have "a \<le> \<lfloor>t\<rfloor>" by (simp add: le_floor_iff)
  then show ?thesis by (simp add: round_half_even_def Let_def)
qed

lemma round_half_even_le: "t \<le> of_int b \<Longrightarrow> round_half_even t \<le> b"
proof -
  assume le: "t \<le> of_int b"
  then have f: "\<lfloor>t\<rfloor> \<le> b" by (simp add: floor_le_iff) 
  show ?thesis
  proof (cases "\<lfloor>t\<rfloor> = b")
    case True
    with le have "t = of_int b" using of_int_floor_le [of t] by simp
    then show ?thesis by simp
  next
    case False
    with f have "\<lfloor>t\<rfloor> + 1 \<le> b" by simp
    then show ?thesis by (simp add: round_half_even_def Let_def)
  qed
qed

lemma ilog2_le: "0 < y \<Longrightarrow> y < 2 powi (k + 1) \<Longrightarrow> ilog2 y \<le> k"
proof -
  assume "0 < y" and less: "y < 2 powi (k + 1)"
  from ilog2_bounds [OF \<open>0 < y\<close>] have "2 powi (ilog2 y) \<le> y" by simp
  with less have "(2::rat) powi (ilog2 y) < 2 powi (k + 1)" by linarith
  then show ?thesis by simp
qed

lemma round_pos_nonneg: "0 < x \<Longrightarrow> 0 \<le> round_pos p emin x"
proof -
  assume "0 < x"
  then have "0 \<le> x / 2 powi (max (ilog2 x) emin - int p + 1)"
    by (simp add: powi2_pos less_imp_le)
  then have "0 \<le> round_half_even (x / 2 powi (max (ilog2 x) emin - int p + 1))"
    using round_half_even_ge [of 0] by simp
  then show ?thesis
    by (simp add: round_pos_def Let_def powi2_pos less_imp_le)
qed

lemma round_pos_idem:
  assumes x: "0 < x" and p: "1 \<le> p" and y: "0 < round_pos p emin x"
  shows "round_pos p emin (round_pos p emin x) = round_pos p emin x"
proof -
  define e where "e = max (ilog2 x) emin"
  define q :: rat where "q = 2 powi (e - int p + 1)"
  define n where "n = round_half_even (x / q)"
  define y where "y = of_int n * q"
  have yx: "round_pos p emin x = y"
    by (simp add: round_pos_def Let_def e_def q_def n_def y_def)
  have qpos: "0 < q" by (simp add: q_def powi2_pos)
  have ypos: "0 < y" using y yx by simp
  have npos: "0 < n" using ypos qpos by (simp add: y_def zero_less_mult_iff)
  have emin: "emin \<le> e" by (simp add: e_def)
  have two_p: "(2::rat) powi (e + 1) = of_int (2 ^ p) * q"
  proof -
    have "e + 1 = int p + (e - int p + 1)" by simp
    then have "(2::rat) powi (e + 1) = 2 powi (int p) * 2 powi (e - int p + 1)"
      by (simp only: powi2_add)
    then show ?thesis by (simp add: q_def)
  qed
  have two_p1: "(2::rat) powi e = of_int (2 ^ (p - 1)) * q"
  proof -
    have "e = int (p - 1) + (e - int p + 1)" using p by simp
    then have "(2::rat) powi e = 2 powi (int (p - 1)) * 2 powi (e - int p + 1)"
      by (simp only: powi2_add [symmetric])
    then show ?thesis by (simp add: q_def)
  qed
  from ilog2_bounds [OF x] have xb: "2 powi (ilog2 x) \<le> x" "x < 2 powi (ilog2 x + 1)"
    by simp_all
  have "x < 2 powi (e + 1)"
  proof -
    have "(2::rat) powi (ilog2 x + 1) \<le> 2 powi (e + 1)" by (simp add: e_def)
    with xb(2) show ?thesis by linarith
  qed
  then have "x < of_int (2 ^ p) * q" by (simp only: two_p)
  then have "x / q < of_int (2 ^ p)"
    using qpos by (simp add: pos_divide_less_eq)
  then have nle: "n \<le> 2 ^ p"
    unfolding n_def by (intro round_half_even_le) simp
  show ?thesis
  proof (cases "n = 2 ^ p")
    case True
    then have yv: "y = 2 powi (e + 1)" by (simp only: y_def two_p)
    then have "ilog2 y = e + 1" by (intro ilog2_unique) simp_all
    with emin have e': "max (ilog2 y) emin = e + 1" by simp
    have q': "(2::rat) powi (e + 1 - int p + 1) = 2 * q"
    proof -
      have "e + 1 - int p + 1 = 1 + (e - int p + 1)" by simp
      then have "(2::rat) powi (e + 1 - int p + 1) = 2 powi 1 * 2 powi (e - int p + 1)"
        by (simp only: powi2_add)
      then show ?thesis by (simp add: q_def)
    qed
    have "2 ^ p = 2 * (2::int) ^ (p - 1)"
      using p by (cases p) simp_all
    then have "y / (2 * q) = of_int (2 ^ (p - 1))"
      using qpos by (simp add: y_def True)
    then have "round_pos p emin y = of_int (2 ^ (p - 1)) * (2 * q)"
      by (simp only: round_pos_def Let_def e' q' round_half_even_of_int)
    also have "\<dots> = y"
      using \<open>2 ^ p = 2 * (2::int) ^ (p - 1)\<close> by (simp add: y_def True)
    finally show ?thesis by (simp add: yx)
  next
    case False
    with nle have "n < 2 ^ p" by simp
    then have "(of_int n :: rat) < of_int (2 ^ p)" by (simp only: of_int_less_iff)
    then have "of_int n * q < of_int (2 ^ p) * q"
      using qpos by (simp only: mult_less_cancel_right_pos)
    then have yless: "y < 2 powi (e + 1)"
      by (simp only: y_def two_p)
    from ilog2_le [OF ypos yless] have le: "ilog2 y \<le> e" .
    have e': "max (ilog2 y) emin = e"
    proof (cases "emin \<le> ilog2 x")
      case True
      then have ex: "e = ilog2 x" by (simp add: e_def)
      have "of_int (2 ^ (p - 1)) * q \<le> x"
        using xb(1) by (simp only: ex [symmetric] two_p1)
      then have "of_int (2 ^ (p - 1)) \<le> x / q"
        using qpos by (simp add: pos_le_divide_eq)
      then have "2 ^ (p - 1) \<le> n"
        unfolding n_def by (rule round_half_even_ge)
      then have "(of_int (2 ^ (p - 1)) :: rat) \<le> of_int n" by (simp only: of_int_le_iff)
      then have "of_int (2 ^ (p - 1)) * q \<le> of_int n * q"
        using qpos by (simp only: mult_le_cancel_right_pos)
      then have "2 powi e \<le> y"
        by (simp only: y_def two_p1)
      with yless have "ilog2 y = e" by (intro ilog2_unique)
      with emin show ?thesis by simp
    next
      case False
      then have "e = emin" by (simp add: e_def)
      with le show ?thesis by simp
    qed
    have "y / q = of_int n" using qpos by (simp add: y_def)
    then have "round_pos p emin y = of_int n * q"
      by (simp only: round_pos_def Let_def e' q_def [symmetric] round_half_even_of_int)
    then show ?thesis by (simp add: yx y_def)
  qed
qed


lemma round_fp_idem:
  assumes p: "1 \<le> p" and r: "round_fp p emin emax x = Fin y"
  shows "round_fp p emin emax y = Fin y"
proof -
  let ?B = "(2::rat) powi (emax + 1)"
  have B: "0 < ?B" by (simp add: powi2_pos)
  consider "x = 0" | "0 < x" | "x < 0" by linarith
  then show ?thesis
  proof cases
    case 1
    with r B show ?thesis by (simp add: round_fp_def Let_def not_le split: if_splits)
  next
    case 2
    with r have y: "y = round_pos p emin x" and b: "\<not> ?B \<le> y" "\<not> y \<le> - ?B"
      by (simp_all add: round_fp_def Let_def split: if_splits)
    from round_pos_nonneg [OF 2] y have "0 \<le> y" by simp
    show ?thesis
    proof (cases "y = 0")
      case True
      with B show ?thesis by (simp add: round_fp_def Let_def not_le)
    next
      case False
      with \<open>0 \<le> y\<close> have "0 < y" by simp
      with round_pos_idem [OF 2 p] y have "round_pos p emin y = y" by simp
      with \<open>0 < y\<close> b show ?thesis by (simp add: round_fp_def Let_def)
    qed
  next
    case 3
    then have nx: "0 < - x" by simp
    define z where "z = round_pos p emin (- x)"
    from 3 r have y: "y = - z" and b: "\<not> ?B \<le> y" "\<not> y \<le> - ?B"
      by (simp_all add: round_fp_def Let_def z_def split: if_splits)
    from round_pos_nonneg [OF nx] have "0 \<le> z" by (simp add: z_def)
    show ?thesis
    proof (cases "z = 0")
      case True
      with B y show ?thesis by (simp add: round_fp_def Let_def not_le)
    next
      case False
      with \<open>0 \<le> z\<close> have "0 < z" by simp
      with round_pos_idem [OF nx p] have "round_pos p emin z = z" by (simp add: z_def)
      with \<open>0 < z\<close> b y show ?thesis by (simp add: round_fp_def Let_def)
    qed
  qed
qed

lemma frac_bounds:
  assumes n: "0 < n" and d: "0 < d"
  shows "2 powi (bits n - bits d - 1) < (of_int n / of_int d :: rat)"
    and "(of_int n / of_int d :: rat) < 2 powi (bits n - bits d + 1)"
proof -
  note bn = bits_bounds_rat [OF n] and bd = bits_bounds_rat [OF d]
  have dpos: "(0::rat) < of_int d" using d by simp
  have "of_int n * 2 powi (bits d - 1) < (2::rat) powi (bits n) * of_int d"
    using bn(2) bd(1) n by (intro mult_less_le_imp_less) simp_all
  then have "of_int n / of_int d < (2::rat) powi (bits n) / 2 powi (bits d - 1)"
    using dpos by (simp add: field_simps)
  also have "\<dots> = 2 powi (bits n - bits d + 1)"
    unfolding powi2_diff [symmetric] by (rule arg_cong [where f = "\<lambda>k. 2 powi k"]) simp
  finally show "(of_int n / of_int d :: rat) < 2 powi (bits n - bits d + 1)" .
  have "(2::rat) powi (bits n - 1) * of_int d < of_int n * 2 powi (bits d)"
    using bn(1) bd(2) d by (intro mult_le_less_imp_less) simp_all
  then have "(2::rat) powi (bits n - 1) / 2 powi (bits d) < of_int n / of_int d"
    using dpos by (simp add: field_simps)
  moreover have "(2::rat) powi (bits n - 1) / 2 powi (bits d) = 2 powi (bits n - bits d - 1)"
    unfolding powi2_diff [symmetric] by (rule arg_cong [where f = "\<lambda>k. 2 powi k"]) simp
  ultimately show "2 powi (bits n - bits d - 1) < (of_int n / of_int d :: rat)" by simp
qed

lemma ilog2_frac:
  assumes n: "0 < n" and d: "0 < d"
  shows "ilog2 (of_int n / of_int d) =
           (if 2 powi (bits n - bits d) \<le> (of_int n / of_int d :: rat)
            then bits n - bits d else bits n - bits d - 1)"
proof (cases "2 powi (bits n - bits d) \<le> (of_int n / of_int d :: rat)")
  case True
  with frac_bounds(2) [OF n d] show ?thesis by (simp add: ilog2_unique)
next
  case False
  then have "(of_int n / of_int d :: rat) < 2 powi (bits n - bits d - 1 + 1)" by simp
  with frac_bounds(1) [OF n d] have "ilog2 (of_int n / of_int d) = bits n - bits d - 1"
    by (intro ilog2_unique) simp_all
  with False show ?thesis by simp
qed

lemma bits_0 [simp]: "bits 0 = 0"
  by (simp add: bits_nonpos)

lemma bits_1 [simp]: "bits 1 = 1"
  by (simp add: bits_pos)

lemma bits_numeral [simp]: "bits (numeral a) = 1 + bits (numeral a div 2)"
  by (rule bits_pos) simp

lemma ilog2_numeral_frac:
  "ilog2 (numeral a / numeral b) =
     (if 2 powi (bits (numeral a) - bits (numeral b)) \<le> (numeral a / numeral b :: rat)
      then bits (numeral a) - bits (numeral b) else bits (numeral a) - bits (numeral b) - 1)"
  using ilog2_frac [of "numeral a" "numeral b"] by simp

lemma ilog2_numeral:
  "ilog2 (numeral a) = bits (numeral a) - 1"
  using ilog2_frac [of "numeral a" 1] bits_bounds_rat(1) [of "numeral a"] by simp

lemma ilog2_one_frac:
  "ilog2 (1 / numeral b) =
     (if 2 powi (1 - bits (numeral b)) \<le> (1 / numeral b :: rat)
      then 1 - bits (numeral b) else - bits (numeral b))"
  using ilog2_frac [of 1 "numeral b"] by simp

lemma ilog2_1: "ilog2 1 = 0"
  using ilog2_frac [of 1 1] by simp

lemma floor_rat_numeral_frac: "\<lfloor>numeral a / numeral b :: rat\<rfloor> = numeral a div numeral b"
  using floor_divide_of_int_eq [of "numeral a" "numeral b", where ?'a = rat] by simp

lemma floor_rat_one_frac: "\<lfloor>1 / numeral b :: rat\<rfloor> = 1 div numeral b"
  using floor_divide_of_int_eq [of 1 "numeral b", where ?'a = rat] by simp

lemmas float_eval = single_def double_def round_fp_def round_pos_def round_half_even_def Let_def
  ilog2_numeral_frac ilog2_numeral ilog2_one_frac ilog2_1 floor_rat_numeral_frac floor_rat_one_frac

section \<open>Stored numbers and extrema\<close>

lemma single_idem: "single x = Fin y \<Longrightarrow> single y = Fin y"
  unfolding single_def by (rule round_fp_idem) simp_all

lemma to_single_idem [simp]: "to_single (to_single a) = to_single a"
proof (cases a)
  case (Fin x)
  show ?thesis
  proof (cases "single x")
    case (Fin y)
    with single_idem [OF this] \<open>a = Fin x\<close> show ?thesis by simp
  qed (simp_all add: \<open>a = Fin x\<close>)
qed simp_all

lemma to_single_dot4 [simp]: "to_single (dot4 r v) = dot4 r v"
  by (cases r; cases v) simp

lemma flt_irrefl [simp]: "\<not> flt a a"
  by (cases a) simp_all

lemma flt_trans: "flt a b \<Longrightarrow> flt b c \<Longrightarrow> flt a c"
  by (cases a; cases b; cases c) simp_all

lemma flt_total: "a \<noteq> NaN \<Longrightarrow> b \<noteq> NaN \<Longrightarrow> flt a b \<or> a = b \<or> flt b a"
  by (cases a; cases b) auto

lemma flt_le_trans: "a \<noteq> NaN \<Longrightarrow> b \<noteq> NaN \<Longrightarrow> flt c a \<Longrightarrow> \<not> flt b a \<Longrightarrow> flt c b"
  by (cases a; cases b; cases c) auto

lemma min_from_least:
  "NaN \<notin> insert m (set xs) \<Longrightarrow> is_least (insert m (set xs)) (min_from m xs)"
proof (induction xs arbitrary: m)
  case Nil
  show ?case by (simp add: is_least_def)
next
  case (Cons x xs)
  let ?m = "if flt x m then x else m"
  let ?r = "min_from ?m xs"
  from Cons.prems have nn: "m \<noteq> NaN" "x \<noteq> NaN" "NaN \<notin> set xs" by auto
  then have "NaN \<notin> insert ?m (set xs)" by auto
  from Cons.IH [OF this] have mem: "?r \<in> insert ?m (set xs)"
    and low: "\<forall>y\<in>insert ?m (set xs). \<not> flt y ?r"
    by (simp_all add: is_least_def)
  from mem nn have rn: "?r \<noteq> NaN" by (auto split: if_splits)
  have "\<not> flt m ?r \<and> \<not> flt x ?r"
  proof (cases "flt x m")
    case True
    with low have "\<not> flt x ?r" by simp
    moreover from this True have "\<not> flt m ?r" using flt_trans by blast
    ultimately show ?thesis by simp
  next
    case False
    with low have "\<not> flt m ?r" by simp
    moreover from this False have "\<not> flt x ?r" using flt_le_trans [OF rn nn(1)] by blast
    ultimately show ?thesis by simp
  qed
  with mem low show ?case by (auto simp add: is_least_def split: if_splits)
qed

lemma max_from_greatest:
  "NaN \<notin> insert m (set xs) \<Longrightarrow> is_greatest (insert m (set xs)) (max_from m xs)"
proof (induction xs arbitrary: m)
  case Nil
  show ?case by (simp add: is_greatest_def)
next
  case (Cons x xs)
  let ?m = "if flt m x then x else m"
  let ?r = "max_from ?m xs"
  from Cons.prems have nn: "m \<noteq> NaN" "x \<noteq> NaN" "NaN \<notin> set xs" by auto
  then have "NaN \<notin> insert ?m (set xs)" by auto
  from Cons.IH [OF this] have mem: "?r \<in> insert ?m (set xs)"
    and up: "\<forall>y\<in>insert ?m (set xs). \<not> flt ?r y"
    by (simp_all add: is_greatest_def)
  from mem nn have rn: "?r \<noteq> NaN" by (auto split: if_splits)
  have "\<not> flt ?r m \<and> \<not> flt ?r x"
  proof (cases "flt m x")
    case True
    with up have "\<not> flt ?r x" by simp
    moreover from this True have "\<not> flt ?r m" using flt_trans by blast
    ultimately show ?thesis by simp
  next
    case False
    with up have "\<not> flt ?r m" by simp
    moreover from this False have "\<not> flt ?r x"
      using flt_total [OF nn(1) nn(2)] flt_total [OF rn nn(1)] flt_trans by metis
    ultimately show ?thesis by simp
  qed
  with mem up show ?case by (auto simp add: is_greatest_def split: if_splits)
qed

lemma least_unique: "NaN \<notin> S \<Longrightarrow> is_least S a \<Longrightarrow> is_least S b \<Longrightarrow> a = b"
  unfolding is_least_def using flt_total by metis

lemma greatest_unique: "NaN \<notin> S \<Longrightarrow> is_greatest S a \<Longrightarrow> is_greatest S b \<Longrightarrow> a = b"
  unfolding is_greatest_def using flt_total by metis

lemma lo_least: "xs \<noteq> [] \<Longrightarrow> NaN \<notin> set xs \<Longrightarrow> is_least (set xs) (lo xs)"
  using min_from_least by (cases xs) simp_all

lemma hi_greatest: "xs \<noteq> [] \<Longrightarrow> NaN \<notin> set xs \<Longrightarrow> is_greatest (set xs) (hi xs)"
  using max_from_greatest by (cases xs) simp_all

lemma py_min_lo: "xs \<noteq> [] \<Longrightarrow> py_min xs = Inr (lo xs)"
  by (cases xs) simp_all

lemma py_max_hi: "xs \<noteq> [] \<Longrightarrow> py_max xs = Inr (hi xs)"
  by (cases xs) simp_all

lemma calculate_origin_point_eq:
  "calculate_origin_point obj b =
     Inr (if world_verts obj = [] then None else Some (bbox_point (world_verts obj) b))"
  by (simp add: calculate_origin_point_def Let_def py_min_lo py_max_hi bbox_point_def)

lemma world_verts_Nil: "world_verts obj = [] \<longleftrightarrow> vertices obj = []"
  by (simp add: world_verts_def)

lemma lo_set_cong:
  assumes "NaN \<notin> set xs" and "set ys = set xs" and "xs \<noteq> []"
  shows "lo ys = lo xs"
proof -
  from assms have "ys \<noteq> []" "NaN \<notin> set ys" by auto
  then have "is_least (set xs) (lo ys)" using lo_least [of ys] assms(2) by simp
  from least_unique [OF assms(1) this lo_least [OF assms(3) assms(1)]] show ?thesis .
qed

lemma hi_set_cong:
  assumes "NaN \<notin> set xs" and "set ys = set xs" and "xs \<noteq> []"
  shows "hi ys = hi xs"
proof -
  from assms have "ys \<noteq> []" "NaN \<notin> set ys" by auto
  then have "is_greatest (set xs) (hi ys)" using hi_greatest [of ys] assms(2) by simp
  from greatest_unique [OF assms(1) this hi_greatest [OF assms(3) assms(1)]] show ?thesis .
qed

lemma bbox_point_set_cong:
  assumes "nan_free W" and "set W' = set W" and "W \<noteq> []"
  shows "bbox_point W' b = bbox_point W b"
proof -
  from assms(1) have nan: "NaN \<notin> set (map vx W)" "NaN \<notin> set (map vy W)" "NaN \<notin> set (map vz W)"
    by (auto simp add: nan_free_def)
  from assms(2) have sets: "set (map vx W') = set (map vx W)" "set (map vy W') = set (map vy W)"
    "set (map vz W') = set (map vz W)"
    by simp_all
  from assms(3) have ne: "map vx W \<noteq> []" "map vy W \<noteq> []" "map vz W \<noteq> []" by simp_all
  show ?thesis
    unfolding bbox_point_def
    by (simp only: lo_set_cong [OF nan(1) sets(1) ne(1)] hi_set_cong [OF nan(1) sets(1) ne(1)]
        lo_set_cong [OF nan(2) sets(2) ne(2)] hi_set_cong [OF nan(2) sets(2) ne(2)]
        lo_set_cong [OF nan(3) sets(3) ne(3)] hi_set_cong [OF nan(3) sets(3) ne(3)])
qed

lemma calculate_set_cong:
  assumes "nan_free (world_verts obj)" and "set (world_verts obj') = set (world_verts obj)"
  shows "calculate_origin_point obj' b = calculate_origin_point obj b"
proof (cases "world_verts obj = []")
  case True
  with assms(2) have "world_verts obj' = []" by simp
  with True show ?thesis by (simp add: calculate_origin_point_eq)
next
  case False
  with assms(2) have "world_verts obj' \<noteq> []" by auto
  with False bbox_point_set_cong [OF assms(1) assms(2) False] show ?thesis
    by (simp add: calculate_origin_point_eq)
qed

section \<open>The examples, evaluated\<close>

lemma world_verts_moved_cube:
  "world_verts moved_cube =
     [vec 2 3 0, vec 2 3 1, vec 2 4 0, vec 2 4 1, vec 3 3 0, vec 3 3 1, vec 3 4 0, vec 3 4 1]"
  by (simp add: world_verts_def moved_cube_def corner_cube_def translation_def vec_def float_eval)

lemma world_verts_cube: "world_verts cube = unit_cube"
  by (simp add: world_verts_def cube_def unit_cube_def identity_matrix_def translation_def vec_def
      float_eval)

lemma world_verts_ground_cube:
  "world_verts ground_cube =
     [vec (- 1/2) (- 1/2) 0, vec (- 1/2) (- 1/2) 1, vec (- 1/2) (1/2) 0, vec (- 1/2) (1/2) 1,
      vec (1/2) (- 1/2) 0, vec (1/2) (- 1/2) 1, vec (1/2) (1/2) 0, vec (1/2) (1/2) 1]"
  by (simp add: world_verts_def ground_cube_def unit_cube_def translation_def vec_def float_eval)


lemma world_verts_nan_first:
  "world_verts nan_first = [Vector NaN NaN NaN, vec 1 0 0, vec 2 0 0]"
  by (simp add: world_verts_def nan_first_def identity_matrix_def translation_def vec_def float_eval)

lemma world_verts_nan_second:
  "world_verts nan_second = [vec 1 0 0, Vector NaN NaN NaN, vec 2 0 0]"
  by (simp add: world_verts_def nan_second_def identity_matrix_def translation_def vec_def float_eval)


lemma bbox_moved: "bbox_point (world_verts moved_cube) True = vec (5/2) (7/2) 0"
  by (simp add: world_verts_moved_cube bbox_point_def new_Vector_def vec_def float_eval)

lemma calc_nan_first: "calculate_origin_point nan_first True = Inr (Some (Vector NaN NaN NaN))"
  by (simp add: calculate_origin_point_eq world_verts_nan_first bbox_point_def new_Vector_def
      vec_def float_eval)

lemma calc_nan_second: "calculate_origin_point nan_second True = Inr (Some (vec (3/2) 0 0))"
  by (simp add: calculate_origin_point_eq world_verts_nan_second bbox_point_def new_Vector_def
      vec_def float_eval)



lemma calculate_None: "calculate_origin_point obj b = Inr None \<longleftrightarrow> vertices obj = []"
  by (simp add: calculate_origin_point_eq world_verts_Nil)

lemma calculate_Some:
  "vertices obj \<noteq> [] \<Longrightarrow> calculate_origin_point obj b = Inr (Some (target b obj))"
  by (simp add: calculate_origin_point_eq world_verts_Nil target_def)

section \<open>The loop in closed form\<close>

lemma body_with_step: "body_with b h n c = Inr (step b h n c)"
  by (simp add: body_with_def step_def calculate_origin_point_eq world_verts_Nil Let_def
      Vector_bool_def Vector_len_def target_def)

lemma loop_with_fold: "loop_with b h ns c = Inr (fold (step b h) ns c)"
  by (induction ns arbitrary: c) (simp_all add: body_with_step)

lemma operator_body_with: "operator_body b h n c = body_with b h n c"
  by (cases b) (simp_all add: operator_body_def bottom_body_def top_body_def body_with_def)

lemma bottom_loop_with: "bottom_loop h ns c = loop_with True h ns c"
  by (induction ns arbitrary: c)
     (simp_all add: bottom_body_def body_with_def[of True, symmetric] body_with_step)

lemma top_loop_with: "top_loop h ns c = loop_with False h ns c"
  by (induction ns arbitrary: c)
     (simp_all add: top_body_def body_with_def[of False, symmetric] body_with_step)

lemma bottom_execute_with: "SetOriginBottomOperator_execute h c = execute_with True h c"
  by (simp add: SetOriginBottomOperator_execute_def execute_with_def bottom_loop_with)

lemma top_execute_with: "SetOriginTopOperator_execute h c = execute_with False h c"
  by (simp add: SetOriginTopOperator_execute_def execute_with_def top_loop_with)

lemma operator_execute_final: "operator_execute b h c = Inr (final b h c, {''FINISHED''})"
  by (simp add: operator_execute_def bottom_execute_with top_execute_with execute_with_def
      loop_with_fold final_def)

text \<open>
  No call of the primitive changes the type of an object, so the type filter decides the
  same way in every state of the loop.
\<close>

lemma obj_type_step [simp]: "obj_type (objects (step b h m c) k) = obj_type (objects c k)"
  by (simp add: step_def call_origin_set_def Let_def)

lemma obj_type_fold [simp]: "obj_type (objects (fold (step b h) ns c) k) = obj_type (objects c k)"
  by (induction ns arbitrary: c) simp_all

lemma calls_step: "calls (step b h m c) = calls c @ emitted b c m"
  by (simp add: step_def emitted_def call_origin_set_def Let_def)

lemma calls_fold: "calls (fold (step b h) ns c) = calls c @ trace b h ns c"
  by (induction ns arbitrary: c) (simp_all add: calls_step)

lemma new_calls_final: "new_calls c (final b h c) = trace b h (selected_objects c) c"
  by (simp add: final_def new_calls_def calls_fold)



lemma step_skip: "\<not> eligible (objects c m) \<Longrightarrow> objects (step b h m c) = objects c"
  by (auto simp add: step_def eligible_def Let_def)

lemma eligible_step:
  assumes "keeps_emptiness h"
  shows "eligible (objects (step b h m c) k) = eligible (objects c k)"
proof -
  have "(vertices (objects (step b h m c) k) = []) = (vertices (objects c k) = [])"
    using assms by (simp add: step_def call_origin_set_def keeps_emptiness_def Let_def)
  then show ?thesis by (simp add: eligible_def)
qed

lemma origin_set_emitted:
  "(\<exists>p. Origin_Set (Some n) p \<in> set (emitted b c m)) \<longleftrightarrow> n = m \<and> eligible (objects c m)"
  by (auto simp add: emitted_def eligible_def Let_def)

lemma origin_set_trace:
  assumes "keeps_emptiness h"
  shows "(\<exists>p. Origin_Set (Some n) p \<in> set (trace b h ns c)) \<longleftrightarrow>
           n \<in> set ns \<and> eligible (objects c n)"
proof (induction ns arbitrary: c)
  case Nil
  show ?case by simp
next
  case (Cons m ns)
  have "(\<exists>p. Origin_Set (Some n) p \<in> set (trace b h (m # ns) c)) \<longleftrightarrow>
          (\<exists>p. Origin_Set (Some n) p \<in> set (emitted b c m)) \<or>
          (\<exists>p. Origin_Set (Some n) p \<in> set (trace b h ns (step b h m c)))"
    by auto
  also have "\<dots> \<longleftrightarrow> (n = m \<and> eligible (objects c m)) \<or> (n \<in> set ns \<and> eligible (objects c n))"
    by (simp only: origin_set_emitted Cons.IH eligible_step [OF assms])
  finally show ?case by auto
qed



lemma step_skipped: "skipped c (step b h n c) \<longleftrightarrow> \<not> eligible (objects c n)"
  by (auto simp add: skipped_def step_def new_calls_def eligible_def call_origin_set_def Let_def)

lemma keeps_emptiness_relocate_selected: "keeps_emptiness relocate_selected"
  by (simp add: keeps_emptiness_def relocate_selected_def)


lemma ground_cube_point: "calculate_origin_point ground_cube True = Inr (Some (vec 0 0 0))"
proof -
  have "bbox_point (world_verts ground_cube) True = vec 0 0 0"
    by (simp add: world_verts_ground_cube bbox_point_def new_Vector_def vec_def float_eval)
  moreover have "vertices ground_cube \<noteq> []"
    by (simp add: ground_cube_def unit_cube_def)
  ultimately show ?thesis
    by (simp add: calculate_origin_point_eq world_verts_Nil)
qed

lemma moved_cube_bottom: "calculate_origin_point moved_cube True = Inr (Some (vec (5/2) (7/2) 0))"
proof -
  have "vertices moved_cube \<noteq> []"
    by (simp add: moved_cube_def corner_cube_def)
  then show ?thesis
    by (simp add: calculate_origin_point_eq bbox_moved world_verts_Nil)
qed

lemma moved_cube_top: "calculate_origin_point moved_cube False = Inr (Some (vec (5/2) (7/2) 1))"
proof -
  have "bbox_point (world_verts moved_cube) False = vec (5/2) (7/2) 1"
    by (simp add: world_verts_moved_cube bbox_point_def new_Vector_def vec_def float_eval)
  moreover have "vertices moved_cube \<noteq> []"
    by (simp add: moved_cube_def corner_cube_def)
  ultimately show ?thesis
    by (simp add: calculate_origin_point_eq world_verts_Nil)
qed

section \<open>Claims about the calculator\<close>




text \<open>
  C8, as amended. When no world-space coordinate of an object is NaN, the calculator
  returns the same result on every permutation of the object's vertex list: the computed
  point does not depend on the order in which the vertices are visited.
\<close>

theorem C8_vertex_order_is_irrelevant:
  assumes "mset (vertices obj') = mset (vertices obj)"
    and "matrix_world obj' = matrix_world obj"
    and "nan_free (world_verts obj)"
  shows "calculate_origin_point obj' use_bottom = calculate_origin_point obj use_bottom"
proof -
  from assms(1) have "set (vertices obj') = set (vertices obj)"
    by (rule mset_eq_setD)
  with assms(2) have "set (world_verts obj') = set (world_verts obj)"
    by (simp add: world_verts_def)
  with assms(3) show ?thesis by (rule calculate_set_cong)
qed

theorem C8_witness:
  "mset (vertices (moved_cube\<lparr>vertices := rev corner_cube\<rparr>)) = mset (vertices moved_cube) \<and>
   matrix_world (moved_cube\<lparr>vertices := rev corner_cube\<rparr>) = matrix_world moved_cube \<and>
   nan_free (world_verts moved_cube) \<and>
   vertices (moved_cube\<lparr>vertices := rev corner_cube\<rparr>) \<noteq> vertices moved_cube \<and>
   calculate_origin_point (moved_cube\<lparr>vertices := rev corner_cube\<rparr>) False =
     calculate_origin_point moved_cube False"
proof -
  have perm: "mset (vertices (moved_cube\<lparr>vertices := rev corner_cube\<rparr>)) = mset (vertices moved_cube)"
    by (simp add: moved_cube_def)
  have mat: "matrix_world (moved_cube\<lparr>vertices := rev corner_cube\<rparr>) = matrix_world moved_cube"
    by simp
  have nan: "nan_free (world_verts moved_cube)"
    by (simp add: world_verts_moved_cube nan_free_def vec_def)
  have differ: "vertices (moved_cube\<lparr>vertices := rev corner_cube\<rparr>) \<noteq> vertices moved_cube"
    by (simp add: moved_cube_def corner_cube_def vec_def)
  from C8_vertex_order_is_irrelevant [OF perm mat nan, of False] perm mat nan differ
  show ?thesis by simp
qed

text \<open>
  The claim as it was stated, for every vertex list, fails when a coordinate is NaN:
  every comparison with NaN is false, so \<^verbatim>\<open>min\<close> and \<^verbatim>\<open>max\<close> keep a NaN that comes
  first and pass over one that comes later.
\<close>

theorem C8_counterexample:
  "vertices nan_first \<noteq> [] \<and>
   mset (vertices nan_second) = mset (vertices nan_first) \<and>
   matrix_world nan_second = matrix_world nan_first \<and>
   calculate_origin_point nan_first True = Inr (Some (Vector NaN NaN NaN)) \<and>
   calculate_origin_point nan_second True = Inr (Some (vec (3/2) 0 0)) \<and>
   calculate_origin_point nan_second True \<noteq> calculate_origin_point nan_first True"
proof -
  have "vertices nan_first \<noteq> []"
    and "mset (vertices nan_second) = mset (vertices nan_first)"
    and "matrix_world nan_second = matrix_world nan_first"
    by (simp_all add: nan_first_def nan_second_def)
  moreover have "Vector NaN NaN NaN \<noteq> vec (3/2) 0 0"
    by (simp add: vec_def)
  ultimately show ?thesis
    by (simp add: calc_nan_first calc_nan_second)
qed

text \<open>
  C9. For an object whose world-space vertices are the eight corners of the unit cube
  centred at the world origin, the calculator returns \<open>(0, 0, -1/2)\<close> in bottom mode and
  \<open>(0, 0, 1/2)\<close> in top mode.
\<close>

theorem C9_unit_cube:
  assumes "set (world_verts obj) = set unit_cube"
  shows "calculate_origin_point obj True = Inr (Some (vec 0 0 (- 1/2))) \<and>
         calculate_origin_point obj False = Inr (Some (vec 0 0 (1/2)))"
proof -
  have nan: "nan_free (world_verts cube)"
    by (simp add: world_verts_cube unit_cube_def nan_free_def vec_def)
  from assms have same: "set (world_verts obj) = set (world_verts cube)"
    by (simp add: world_verts_cube)
  have "bbox_point unit_cube True = vec 0 0 (- 1/2)"
    and "bbox_point unit_cube False = vec 0 0 (1/2)"
    by (simp_all add: bbox_point_def unit_cube_def new_Vector_def vec_def float_eval)
  then have "calculate_origin_point cube True = Inr (Some (vec 0 0 (- 1/2)))"
    and "calculate_origin_point cube False = Inr (Some (vec 0 0 (1/2)))"
    by (simp_all add: calculate_origin_point_eq world_verts_cube unit_cube_def)
  with calculate_set_cong [OF nan same] show ?thesis by simp
qed

theorem C9_witness:
  "set (world_verts cube) = set unit_cube \<and>
   calculate_origin_point cube True = Inr (Some (vec 0 0 (- 1/2))) \<and>
   calculate_origin_point cube False = Inr (Some (vec 0 0 (1/2)))"
proof -
  have corners: "set (world_verts cube) = set unit_cube"
    by (simp add: world_verts_cube)
  from C9_unit_cube [OF corners] corners show ?thesis by simp
qed

section \<open>Claims about the batch procedure\<close>

text \<open>
  C2. For every mesh object, the batch procedure skips it (no cursor move, no relocation
  call) if and only if the calculator returns \<open>None\<close>; and for every mesh object with at
  least one vertex it moves the cursor to the computed origin point, makes the object
  the active one and calls the host's relocation primitive in that state. The first
  conjunct is about one pass through the loop body, in whatever state the loop reaches
  the object, for every host; the second is about the whole batch, for an object of the
  selection and a host that keeps empty meshes empty and the others non-empty.
\<close>

theorem C2_skip_iff_calculator_returns_None:
  assumes "obj_type (objects c n) = ''MESH''"
  shows "(\<exists>c'. operator_body use_bottom origin_set n c = Inr c' \<and>
            (skipped c c' \<longleftrightarrow> calculate_origin_point (objects c n) use_bottom = Inr None) \<and>
            (vertices (objects c n) \<noteq> [] \<longrightarrow>
               (\<exists>p. calculate_origin_point (objects c n) use_bottom = Inr (Some p) \<and>
                    c' = call_origin_set origin_set
                           (c\<lparr>calls := calls c @ [Calculate n use_bottom],
                              cursor_location := p, active_object := Some n\<rparr>) \<and>
                    cursor_location c' = p \<and> active_object c' = Some n \<and>
                    new_calls c c' = [Calculate n use_bottom, Origin_Set (Some n) p]))) \<and>
         (keeps_emptiness origin_set \<and> n \<in> set (selected_objects c) \<longrightarrow>
            (\<exists>c' r. operator_execute use_bottom origin_set c = Inr (c', r) \<and>
               ((\<forall>p. Origin_Set (Some n) p \<notin> set (new_calls c c')) \<longleftrightarrow>
                  calculate_origin_point (objects c n) use_bottom = Inr None)))"
proof (intro conjI impI)
  let ?c' = "step use_bottom origin_set n c"
  have run: "operator_body use_bottom origin_set n c = Inr ?c'"
    by (simp add: operator_body_with body_with_step)
  have skip: "skipped c ?c' \<longleftrightarrow> calculate_origin_point (objects c n) use_bottom = Inr None"
    using assms by (simp add: step_skipped calculate_None eligible_def)
  have reloc: "vertices (objects c n) \<noteq> [] \<longrightarrow>
      (\<exists>p. calculate_origin_point (objects c n) use_bottom = Inr (Some p) \<and>
           ?c' = call_origin_set origin_set
                   (c\<lparr>calls := calls c @ [Calculate n use_bottom],
                      cursor_location := p, active_object := Some n\<rparr>) \<and>
           cursor_location ?c' = p \<and> active_object ?c' = Some n \<and>
           new_calls c ?c' = [Calculate n use_bottom, Origin_Set (Some n) p])"
    using assms
    by (simp add: calculate_Some step_def call_origin_set_def new_calls_def Let_def)
  from run skip reloc
  show "\<exists>c'. operator_body use_bottom origin_set n c = Inr c' \<and>
            (skipped c c' \<longleftrightarrow> calculate_origin_point (objects c n) use_bottom = Inr None) \<and>
            (vertices (objects c n) \<noteq> [] \<longrightarrow>
               (\<exists>p. calculate_origin_point (objects c n) use_bottom = Inr (Some p) \<and>
                    c' = call_origin_set origin_set
                           (c\<lparr>calls := calls c @ [Calculate n use_bottom],
                              cursor_location := p, active_object := Some n\<rparr>) \<and>
                    cursor_location c' = p \<and> active_object c' = Some n \<and>
                    new_calls c c' = [Calculate n use_bottom, Origin_Set (Some n) p]))"
    by blast
next
  assume "keeps_emptiness origin_set \<and> n \<in> set (selected_objects c)"
  then have keeps: "keeps_emptiness origin_set" and sel: "n \<in> set (selected_objects c)"
    by simp_all
  let ?c' = "final use_bottom origin_set c"
  have run: "operator_execute use_bottom origin_set c = Inr (?c', {''FINISHED''})"
    by (rule operator_execute_final)
  have "(\<exists>p. Origin_Set (Some n) p \<in> set (new_calls c ?c')) \<longleftrightarrow> vertices (objects c n) \<noteq> []"
    using assms sel by (simp add: new_calls_final origin_set_trace [OF keeps] eligible_def)
  then have none: "(\<forall>p. Origin_Set (Some n) p \<notin> set (new_calls c ?c')) \<longleftrightarrow>
                calculate_origin_point (objects c n) use_bottom = Inr None"
    by (auto simp add: calculate_None)
  from run none
  show "\<exists>c' r. operator_execute use_bottom origin_set c = Inr (c', r) \<and>
               ((\<forall>p. Origin_Set (Some n) p \<notin> set (new_calls c c')) \<longleftrightarrow>
                  calculate_origin_point (objects c n) use_bottom = Inr None)"
    by blast
qed

theorem C2_witness:
  "obj_type (objects scene ''Cube'') = ''MESH'' \<and>
   keeps_emptiness relocate_selected \<and> ''Cube'' \<in> set (selected_objects scene) \<and>
   calculate_origin_point (objects scene ''Cube'') True = Inr (Some (vec (5/2) (7/2) 0)) \<and>
   (\<exists>c'. operator_body True relocate_selected ''Cube'' scene = Inr c' \<and>
      \<not> skipped scene c' \<and>
      cursor_location c' = vec (5/2) (7/2) 0 \<and> active_object c' = Some ''Cube'' \<and>
      new_calls scene c' =
        [Calculate ''Cube'' True, Origin_Set (Some ''Cube'') (vec (5/2) (7/2) 0)]) \<and>
   (\<exists>c' r. operator_execute True relocate_selected scene = Inr (c', r) \<and>
      (\<exists>p. Origin_Set (Some ''Cube'') p \<in> set (new_calls scene c')))"
proof -
  have obj: "objects scene ''Cube'' = moved_cube"
    by (simp add: scene_def)
  have mesh: "obj_type (objects scene ''Cube'') = ''MESH''"
    by (simp add: obj moved_cube_def)
  have sel: "''Cube'' \<in> set (selected_objects scene)"
    by (simp add: scene_def)
  have verts: "vertices (objects scene ''Cube'') \<noteq> []"
    by (simp add: obj moved_cube_def corner_cube_def)
  have point: "calculate_origin_point (objects scene ''Cube'') True = Inr (Some (vec (5/2) (7/2) 0))"
    by (simp add: obj moved_cube_bottom)
  from C2_skip_iff_calculator_returns_None [OF mesh, of True relocate_selected]
    keeps_emptiness_relocate_selected verts point mesh sel
  show ?thesis by auto
qed

text \<open>
  C3, as amended. A mesh object whose computed origin point is the zero vector is not
  skipped: the loop body moves the cursor to \<open>(0, 0, 0)\<close>, makes the object the active
  one and calls the relocation primitive in that state, as for any other point. The skip
  test \<^verbatim>\<open>not origin_point\<close> holds for \<^verbatim>\<open>None\<close> only, since the truth value of a Vector
  is its length and not its components.
\<close>

theorem C3_zero_point_is_relocated:
  assumes "obj_type (objects c n) = ''MESH''"
    and "calculate_origin_point (objects c n) use_bottom = Inr (Some (vec 0 0 0))"
  shows "\<exists>c'. operator_body use_bottom origin_set n c = Inr c' \<and>
           c' = call_origin_set origin_set
                  (c\<lparr>calls := calls c @ [Calculate n use_bottom],
                     cursor_location := vec 0 0 0, active_object := Some n\<rparr>) \<and>
           cursor_location c' = vec 0 0 0 \<and> active_object c' = Some n \<and>
           calls c' = calls c @ [Calculate n use_bottom, Origin_Set (Some n) (vec 0 0 0)] \<and>
           \<not> skipped c c'"
proof -
  from assms(2) have verts: "vertices (objects c n) \<noteq> []"
    by (auto simp add: calculate_origin_point_eq world_verts_Nil split: if_splits)
  with assms(2) have tgt: "target use_bottom (objects c n) = vec 0 0 0"
    by (simp add: calculate_Some)
  have "\<not> skipped c (step use_bottom origin_set n c)"
    using verts assms(1) by (simp add: step_skipped eligible_def)
  with verts assms(1) tgt show ?thesis
    by (simp add: operator_body_with body_with_step step_def call_origin_set_def)
qed

theorem C3_witness:
  "obj_type (objects ground_scene ''Cube'') = ''MESH'' \<and>
   calculate_origin_point (objects ground_scene ''Cube'') True = Inr (Some (vec 0 0 0)) \<and>
   (\<exists>c'. operator_body True relocate_selected ''Cube'' ground_scene = Inr c' \<and>
      cursor_location c' = vec 0 0 0 \<and> active_object c' = Some ''Cube'' \<and>
      calls c' = [Calculate ''Cube'' True, Origin_Set (Some ''Cube'') (vec 0 0 0)] \<and>
      \<not> skipped ground_scene c')"
proof -
  have obj: "objects ground_scene ''Cube'' = ground_cube"
    by (simp add: ground_scene_def)
  have mesh: "obj_type (objects ground_scene ''Cube'') = ''MESH''"
    by (simp add: obj ground_cube_def)
  have point: "calculate_origin_point (objects ground_scene ''Cube'') True = Inr (Some (vec 0 0 0))"
    by (simp add: obj ground_cube_point)
  have "calls ground_scene = []"
    by (simp add: ground_scene_def)
  with C3_zero_point_is_relocated [OF mesh point, of relocate_selected] mesh point
  show ?thesis by auto
qed

text \<open>
  The claim as it was stated, that such an object is skipped and its origin left as it
  was, fails on a unit cube standing on the plane \<open>z = 0\<close>: its computed bottom point is
  \<open>(0, 0, 0)\<close>, and the bottom operator moves its origin there from \<open>(0, 0, 1/2)\<close>.
\<close>

theorem C3_counterexample:
  "obj_type (objects ground_scene ''Cube'') = ''MESH'' \<and>
   vertices (objects ground_scene ''Cube'') \<noteq> [] \<and>
   calculate_origin_point (objects ground_scene ''Cube'') True = Inr (Some (vec 0 0 0)) \<and>
   origin (objects ground_scene ''Cube'') = vec 0 0 (1/2) \<and>
   vec 0 0 (1/2) \<noteq> vec 0 0 0 \<and>
   SetOriginBottomOperator_execute relocate_selected ground_scene =
     Inr (ground_scene
            \<lparr>objects := (objects ground_scene)(''Cube'' := ground_cube\<lparr>origin := vec 0 0 0\<rparr>),
             calls := [Calculate ''Cube'' True, Origin_Set (Some ''Cube'') (vec 0 0 0)]\<rparr>,
          {''FINISHED''})"
proof -
  have obj: "objects ground_scene ''Cube'' = ground_cube"
    by (simp add: ground_scene_def)
  have tgt: "target True ground_cube = vec 0 0 0"
    using ground_cube_point
    by (simp add: calculate_origin_point_eq target_def split: if_splits)
  have mesh: "obj_type ground_cube = ''MESH''" "vertices ground_cube \<noteq> []"
    "origin ground_cube = vec 0 0 (1/2)"
    by (simp_all add: ground_cube_def unit_cube_def)
  have sel: "selected_objects ground_scene = [''Cube'']" "calls ground_scene = []"
    by (simp_all add: ground_scene_def)
  have objs: "(\<lambda>n. (relocate_selected
                      (ground_scene\<lparr>calls := [Calculate ''Cube'' True],
                                     cursor_location := vec 0 0 0,
                                     active_object := Some ''Cube''\<rparr>) n)
                    \<lparr>obj_type := obj_type (objects ground_scene n)\<rparr>) =
              (objects ground_scene)(''Cube'' := ground_cube\<lparr>origin := vec 0 0 0\<rparr>)"
    by (rule ext) (simp add: relocate_selected_def sel obj mesh)
  have "SetOriginBottomOperator_execute relocate_selected ground_scene =
     Inr (ground_scene
            \<lparr>objects := (objects ground_scene)(''Cube'' := ground_cube\<lparr>origin := vec 0 0 0\<rparr>),
             calls := [Calculate ''Cube'' True, Origin_Set (Some ''Cube'') (vec 0 0 0)]\<rparr>,
          {''FINISHED''})"
    by (simp add: bottom_execute_with execute_with_def loop_with_fold sel step_def obj tgt mesh
        call_origin_set_def objs)
  moreover have "vec 0 0 (1/2) \<noteq> vec 0 0 0"
    by (simp add: vec_def)
  ultimately show ?thesis
    using obj ground_cube_point mesh by simp
qed

text \<open>
  C4. After a batch invocation of either operator, on whatever selection and with
  whatever host, the cursor location and the active object are what they were before the
  invocation.
\<close>

theorem C4_cursor_and_active_object_restored:
  "(\<exists>c' r. SetOriginBottomOperator_execute origin_set c = Inr (c', r) \<and>
       cursor_location c' = cursor_location c \<and> active_object c' = active_object c) \<and>
   (\<exists>c' r. SetOriginTopOperator_execute origin_set c = Inr (c', r) \<and>
       cursor_location c' = cursor_location c \<and> active_object c' = active_object c)"
  by (simp add: bottom_execute_with top_execute_with execute_with_def loop_with_fold)

text \<open>
  C5. A mesh without vertices gets \<open>None\<close> from the calculator, with no error, and the
  loop makes no relocation call for it; yet its origin does not stay as it was. The loop
  marks the object it relocates as the active one and never narrows the selection, and
  the relocation primitive relocates the selection: in the scene of a mesh, an empty
  mesh and a camera, all selected, the call made for the mesh moves the origin of the
  empty mesh with it, from \<open>(1, 1, 1)\<close> to \<open>(5/2, 7/2, 1)\<close> under the top operator.
\<close>

theorem C5_empty_mesh_is_moved:
  "obj_type (objects scene ''Empty'') = ''MESH'' \<and>
   vertices (objects scene ''Empty'') = [] \<and>
   ''Empty'' \<in> set (selected_objects scene) \<and>
   calculate_origin_point (objects scene ''Empty'') False = Inr None \<and>
   origin (objects scene ''Empty'') = vec 1 1 1 \<and>
   vec 1 1 1 \<noteq> vec (5/2) (7/2) 1 \<and>
   SetOriginTopOperator_execute relocate_selected scene =
     Inr (scene
            \<lparr>objects := (objects scene)
                (''Cube'' := moved_cube\<lparr>origin := vec (5/2) (7/2) 1\<rparr>,
                 ''Empty'' := empty_mesh\<lparr>origin := vec (5/2) (7/2) 1\<rparr>),
             calls := [Calculate ''Cube'' False, Origin_Set (Some ''Cube'') (vec (5/2) (7/2) 1),
                       Calculate ''Empty'' False]\<rparr>,
          {''FINISHED''})"
proof -
  have obj: "objects scene ''Cube'' = moved_cube" "objects scene ''Empty'' = empty_mesh"
    "objects scene ''Camera'' = camera"
    by (simp_all add: scene_def)
  have tgt: "target False moved_cube = vec (5/2) (7/2) 1"
    using moved_cube_top
    by (simp add: calculate_origin_point_eq target_def split: if_splits)
  have kinds: "obj_type moved_cube = ''MESH''" "vertices moved_cube \<noteq> []"
    "obj_type empty_mesh = ''MESH''" "vertices empty_mesh = []" "origin empty_mesh = vec 1 1 1"
    "obj_type camera \<noteq> ''MESH''"
    by (simp_all add: moved_cube_def corner_cube_def empty_mesh_def camera_def)
  have sel: "selected_objects scene = [''Cube'', ''Empty'', ''Camera'']" "calls scene = []"
    by (simp_all add: scene_def)
  have objs: "(\<lambda>n. (relocate_selected
                      (scene\<lparr>calls := [Calculate ''Cube'' False],
                               cursor_location := vec (5/2) (7/2) 1,
                               active_object := Some ''Cube''\<rparr>) n)
                    \<lparr>obj_type := obj_type (objects scene n)\<rparr>) =
              (objects scene)
                (''Cube'' := moved_cube\<lparr>origin := vec (5/2) (7/2) 1\<rparr>,
                 ''Empty'' := empty_mesh\<lparr>origin := vec (5/2) (7/2) 1\<rparr>)"
    by (rule ext) (auto simp add: relocate_selected_def sel obj kinds scene_def)
  have "SetOriginTopOperator_execute relocate_selected scene =
     Inr (scene
            \<lparr>objects := (objects scene)
                (''Cube'' := moved_cube\<lparr>origin := vec (5/2) (7/2) 1\<rparr>,
                 ''Empty'' := empty_mesh\<lparr>origin := vec (5/2) (7/2) 1\<rparr>),
             calls := [Calculate ''Cube'' False, Origin_Set (Some ''Cube'') (vec (5/2) (7/2) 1),
                       Calculate ''Empty'' False]\<rparr>,
          {''FINISHED''})"
    by (simp add: top_execute_with execute_with_def loop_with_fold sel step_def obj tgt kinds
        call_origin_set_def objs)
  moreover have "vec 1 1 1 \<noteq> vec (5/2) (7/2) 1"
    by (simp add: vec_def)
  ultimately show ?thesis
    using obj kinds sel by (simp add: calculate_None)
qed



text \<open>
  C7. On every selection, whatever objects are skipped, each operator returns, and what
  it returns is the one signal \<^verbatim>\<open>{'FINISHED'}\<close>: no error reaches the caller (the
  ValueError that \<^verbatim>\<open>min\<close> and \<^verbatim>\<open>max\<close> raise on an empty sequence is excluded by the
  calculator's test for an empty vertex list).
\<close>

theorem C7_always_finished:
  "(\<exists>c'. SetOriginBottomOperator_execute origin_set c = Inr (c', {''FINISHED''})) \<and>
   (\<exists>c'. SetOriginTopOperator_execute origin_set c = Inr (c', {''FINISHED''}))"
  by (simp add: bottom_execute_with top_execute_with execute_with_def loop_with_fold)

text \<open>
  C10. The two operators are one procedure with the mode as a parameter: the top
  operator is the text of the bottom operator with \<^verbatim>\<open>use_bottom=False\<close> in the place of
  \<^verbatim>\<open>use_bottom=True\<close> in the calculator call, every other step the same.
\<close>

theorem C10_top_is_bottom_with_flag_False:
  "SetOriginBottomOperator_execute origin_set c = execute_with True origin_set c \<and>
   SetOriginTopOperator_execute origin_set c = execute_with False origin_set c \<and>
   bottom_loop origin_set ns c = loop_with True origin_set ns c \<and>
   top_loop origin_set ns c = loop_with False origin_set ns c \<and>
   bottom_body origin_set n c = body_with True origin_set n c \<and>
   top_body origin_set n c = body_with False origin_set n c"
  by (simp add: bottom_execute_with top_execute_with bottom_loop_with top_loop_with
      bottom_body_def top_body_def body_with_def)

end
